theory Spec2Isabelle
  imports Main
begin

section \<open>The contact directory of task01.py\<close>

text \<open>
  The program keeps contacts in memory: a \<open>Record\<close> holds a validated \<open>Name\<close> and a list
  of validated \<open>Phone\<close> objects, an \<open>AddressBook\<close> maps a name to its record.

  Python strings are sequences of code points. They are modelled by \<^typ>\<open>string\<close>, each
  \<^typ>\<open>char\<close> standing for the code point of the same number, so the model covers the
  strings whose code points lie in U+0000 .. U+00FF, and \<^const>\<open>length\<close> counts code
  points as Python's \<open>len\<close> does.

  A method that mutates its object takes the object and returns the pair of its outcome
  and the object afterwards; an exception is the outcome \<open>Inl e\<close>, and the object
  returned with it is the one the caller still holds after the exception.
\<close>

subsection \<open>Exceptions\<close>

text \<open>
  The program raises \<open>ValueError\<close>, which is the validation error of the specification.
  \<open>IndexError\<close> and \<open>KeyError\<close> are what the list and dictionary operations of Python
  raise; the theorems below show that the program never meets them.
\<close>

datatype error = ValueError | IndexError | KeyError

subsection \<open>Built-in operations of Python used by the program\<close>

text \<open>
  \<open>c.isdigit()\<close> for one code point below U+0100. Python's library reference: a digit is
  a character that has the property value Numeric_Type=Digit or Numeric_Type=Decimal,
  which includes the compatibility superscript digits. Below U+0100 these are the ten
  characters \<open>0\<close> .. \<open>9\<close> (U+0030 .. U+0039) and the superscripts two, three and one
  (U+00B2, U+00B3, U+00B9); the fractions U+00BC .. U+00BE are Numeric_Type=Numeric and
  are not digits.
\<close>

definition char_isdigit :: "char \<Rightarrow> bool" where
  "char_isdigit c =
     (let n = (of_char c :: nat)
      in (0x30 \<le> n \<and> n \<le> 0x39) \<or> n = 0xB2 \<or> n = 0xB3 \<or> n = 0xB9)"

text \<open>\<open>s.isdigit()\<close>: every character is a digit and there is at least one character.\<close>

definition isdigit :: "string \<Rightarrow> bool" where
  "isdigit s = (s \<noteq> [] \<and> list_all char_isdigit s)"

text \<open>\<open>sep.join(xs)\<close>\<close>

fun join :: "string \<Rightarrow> string list \<Rightarrow> string" where
  "join sep [] = []"
| "join sep [x] = x"
| "join sep (x # y # ys) = x @ sep @ join sep (y # ys)"

text \<open>
  \<open>xs.remove(x)\<close>: deletes the first element equal to \<open>x\<close>, raises ValueError when there
  is none.
\<close>

definition list_remove :: "'a \<Rightarrow> 'a list \<Rightarrow> error + 'a list" where
  "list_remove x xs = (if x \<in> set xs then Inr (remove1 x xs) else Inl ValueError)"

text \<open>\<open>xs[i] = v\<close> for a non-negative index: raises IndexError out of range.\<close>

definition list_setitem :: "nat \<Rightarrow> 'a \<Rightarrow> 'a list \<Rightarrow> error + 'a list" where
  "list_setitem i v xs = (if i < length xs then Inr (xs[i := v]) else Inl IndexError)"

text \<open>\<open>del d[k]\<close>: raises KeyError when the key is absent.\<close>

definition dict_delitem :: "'k \<Rightarrow> ('k \<rightharpoonup> 'v) \<Rightarrow> error + ('k \<rightharpoonup> 'v)" where
  "dict_delitem k d = (if d k = None then Inl KeyError else Inr (d(k := None)))"

subsection \<open>Field, Name, Phone\<close>

text \<open>
  \<open>Field\<close> stores one value; \<open>Name\<close> and \<open>Phone\<close> add a check to its constructor and no
  field of their own. \<open>Name_init\<close> and \<open>Phone_init\<close> are the two \<open>__init__\<close> methods.
\<close>

datatype Name = Name_obj (name_value: string)

datatype Phone = Phone_obj (phone_value: string)

definition Name_init :: "string \<Rightarrow> error + Name" where
  "Name_init v = (if v = [] then Inl ValueError else Inr (Name_obj v))"

definition Phone_init :: "string \<Rightarrow> error + Phone" where
  "Phone_init v =
     (if \<not> isdigit v \<or> length v \<noteq> 10 then Inl ValueError else Inr (Phone_obj v))"

text \<open>
  The specification's words for a phone: exactly 10 characters, all decimal digits. A
  decimal digit is one of \<open>0\<close> .. \<open>9\<close>; this predicate is the specification's, the
  constructor above does not use it.
\<close>

definition decimal_digit :: "char \<Rightarrow> bool" where
  "decimal_digit c = (0x30 \<le> (of_char c :: nat) \<and> (of_char c :: nat) \<le> 0x39)"

subsection \<open>Record\<close>

record Record =
  name :: Name
  phones :: "Phone list"

definition Record_init :: "string \<Rightarrow> error + Record" where
  "Record_init n =
     (case Name_init n of
        Inl e \<Rightarrow> Inl e
      | Inr nm \<Rightarrow> Inr \<lparr>name = nm, phones = []\<rparr>)"

definition add_phone :: "string \<Rightarrow> Record \<Rightarrow> (error + unit) \<times> Record" where
  "add_phone phone r =
     (case Phone_init phone of
        Inl e \<Rightarrow> (Inl e, r)
      | Inr p \<Rightarrow> (Inr (), r\<lparr>phones := phones r @ [p]\<rparr>))"

text \<open>
  The loop of \<open>remove_phone\<close> over the elements still to visit; \<open>all\<close> is the whole list
  \<open>self.phones\<close>. \<open>Phone\<close> defines no \<open>__eq__\<close>, so \<open>remove\<close> compares objects by
  identity; the object \<open>p\<close> found by the loop is the first one holding its value, every
  element before it holds another value, so the first element identical to \<open>p\<close> and the
  first element holding the value of \<open>p\<close> are the same element.
\<close>

fun remove_phone_loop :: "Phone list \<Rightarrow> string \<Rightarrow> Phone list \<Rightarrow> (error + bool) \<times> Phone list" where
  "remove_phone_loop [] phone all = (Inr False, all)"
| "remove_phone_loop (p # ps) phone all =
     (if phone_value p = phone then
        (case list_remove p all of
           Inl e \<Rightarrow> (Inl e, all)
         | Inr all' \<Rightarrow> (Inr True, all'))
      else remove_phone_loop ps phone all)"

definition remove_phone :: "string \<Rightarrow> Record \<Rightarrow> (error + bool) \<times> Record" where
  "remove_phone phone r =
     (case remove_phone_loop (phones r) phone (phones r) of
        (res, ps) \<Rightarrow> (res, r\<lparr>phones := ps\<rparr>))"

text \<open>The loop of \<open>edit_phone\<close> over \<open>enumerate(self.phones)\<close>, from index \<open>i\<close> on.\<close>

fun edit_phone_loop ::
  "nat \<Rightarrow> Phone list \<Rightarrow> string \<Rightarrow> string \<Rightarrow> Phone list \<Rightarrow> (error + bool) \<times> Phone list" where
  "edit_phone_loop i [] old_phone new_phone all = (Inr False, all)"
| "edit_phone_loop i (p # ps) old_phone new_phone all =
     (if phone_value p = old_phone then
        (case Phone_init new_phone of
           Inl e \<Rightarrow> (Inl e, all)
         | Inr q \<Rightarrow>
             (case list_setitem i q all of
                Inl e \<Rightarrow> (Inl e, all)
              | Inr all' \<Rightarrow> (Inr True, all')))
      else edit_phone_loop (Suc i) ps old_phone new_phone all)"

definition edit_phone :: "string \<Rightarrow> string \<Rightarrow> Record \<Rightarrow> (error + bool) \<times> Record" where
  "edit_phone old_phone new_phone r =
     (case edit_phone_loop 0 (phones r) old_phone new_phone (phones r) of
        (res, ps) \<Rightarrow> (res, r\<lparr>phones := ps\<rparr>))"

fun find_phone_loop :: "Phone list \<Rightarrow> string \<Rightarrow> Phone option" where
  "find_phone_loop [] phone = None"
| "find_phone_loop (p # ps) phone =
     (if phone_value p = phone then Some p else find_phone_loop ps phone)"

definition find_phone :: "string \<Rightarrow> Record \<Rightarrow> Phone option" where
  "find_phone phone r = find_phone_loop (phones r) phone"

text \<open>\<open>Record.__str__\<close>\<close>

definition Record_str :: "Record \<Rightarrow> string" where
  "Record_str r =
     ''Contact name: '' @ name_value (name r) @ '', phones: ''
       @ join ''; '' (map phone_value (phones r))"

subsection \<open>AddressBook\<close>

text \<open>
  A \<open>UserDict\<close>: the dictionary \<open>data\<close> from name strings to records. No property below
  depends on the order of its entries, so it is a map.
\<close>

record AddressBook =
  data :: "string \<rightharpoonup> Record"

definition AddressBook_init :: AddressBook where
  "AddressBook_init = \<lparr>data = Map.empty\<rparr>"

definition add_record :: "Record \<Rightarrow> AddressBook \<Rightarrow> AddressBook" where
  "add_record record book = book\<lparr>data := (data book)(name_value (name record) \<mapsto> record)\<rparr>"

definition find_record :: "string \<Rightarrow> AddressBook \<Rightarrow> Record option" where
  "find_record n book = data book n"

definition delete :: "string \<Rightarrow> AddressBook \<Rightarrow> (error + unit) \<times> AddressBook" where
  "delete n book =
     (if data book n \<noteq> None then
        (case dict_delitem n (data book) of
           Inl e \<Rightarrow> (Inl e, book)
         | Inr d \<Rightarrow> (Inr (), book\<lparr>data := d\<rparr>))
      else (Inr (), book))"

text \<open>
  The values the constructor of \<open>Phone\<close> accepts: the negation of the condition under
  which it raises.
\<close>

definition valid_phone :: "string \<Rightarrow> bool" where
  "valid_phone v = (isdigit v \<and> length v = 10)"

subsection \<open>Record states\<close>

text \<open>
  The invariant of a record: a non-empty name, and every stored phone holds a value that
  passes the check of the constructor of \<open>Phone\<close>.
\<close>

definition record_inv :: "Record \<Rightarrow> bool" where
  "record_inv r =
     (name_value (name r) \<noteq> [] \<and> list_all (\<lambda>p. valid_phone (phone_value p)) (phones r))"

text \<open>
  The records a caller can reach: built by the constructor, then changed by \<open>add_phone\<close>,
  \<open>remove_phone\<close> and \<open>edit_phone\<close> only. A call that raises is a step too; it leads
  to the record the caller holds afterwards.
\<close>

inductive reachable :: "Record \<Rightarrow> bool" where
  init: "Record_init n = Inr r \<Longrightarrow> reachable r"
| add: "reachable r \<Longrightarrow> reachable (snd (add_phone phone r))"
| remove: "reachable r \<Longrightarrow> reachable (snd (remove_phone phone r))"
| edit: "reachable r \<Longrightarrow> reachable (snd (edit_phone old_phone new_phone r))"

subsection \<open>The records of the script\<close>

text \<open>
  The script at the end of the file builds \<open>Record("John")\<close> with the phones 1234567890
  and 5555555555, and \<open>Record("Jane")\<close> with the phone 9876543210.
\<close>

definition john :: Record where
  "john = \<lparr>name = Name_obj ''John'',
            phones = [Phone_obj ''1234567890'', Phone_obj ''5555555555'']\<rparr>"

definition jane :: Record where
  "jane = \<lparr>name = Name_obj ''Jane'', phones = [Phone_obj ''9876543210'']\<rparr>"

section \<open>Properties\<close>

subsection \<open>The constructors\<close>

lemma Phone_init_valid:
  "Phone_init v = (if valid_phone v then Inr (Phone_obj v) else Inl ValueError)"
  by (auto simp add: Phone_init_def valid_phone_def)

lemma char_isdigit_ascii: "(of_char c :: nat) < 128 \<Longrightarrow> char_isdigit c = decimal_digit c"
  by (auto simp add: char_isdigit_def decimal_digit_def Let_def)

lemma decimal_digit_isdigit: "decimal_digit c \<Longrightarrow> char_isdigit c"
  by (simp add: char_isdigit_def decimal_digit_def)

lemma decimal_valid: "length v = 10 \<Longrightarrow> list_all decimal_digit v \<Longrightarrow> valid_phone v"
  by (auto simp add: valid_phone_def isdigit_def list_all_iff decimal_digit_isdigit)

text \<open>
  On strings of ASCII characters the constructor of \<open>Phone\<close> accepts exactly the strings
  of ten decimal digits.
\<close>

lemma Phone_init_ascii:
  assumes "list_all (\<lambda>c. (of_char c :: nat) < 128) p"
  shows "Phone_init p =
           (if length p = 10 \<and> list_all decimal_digit p then Inr (Phone_obj p)
            else Inl ValueError)"
proof -
  from assms have "list_all char_isdigit p = list_all decimal_digit p"
    by (induction p) (simp_all add: char_isdigit_ascii)
  then show ?thesis
    by (auto simp add: Phone_init_def isdigit_def)
qed

lemma valid_1234567890: "valid_phone ''1234567890''"
  by (simp add: valid_phone_def isdigit_def char_isdigit_def)

lemma valid_1112223333: "valid_phone ''1112223333''"
  by (simp add: valid_phone_def isdigit_def char_isdigit_def)

lemma valid_5555555555: "valid_phone ''5555555555''"
  by (simp add: valid_phone_def isdigit_def char_isdigit_def)

lemma invalid_12345: "\<not> valid_phone ''12345''"
  by (simp add: valid_phone_def)

text \<open>
  Claim C1: \<open>Phone(p)\<close> succeeds and stores \<open>p\<close> if and only if \<open>p\<close> has length
  exactly 10 and every character of \<open>p\<close> is a decimal digit, and fails with the
  validation error otherwise. The constructor tests \<open>p.isdigit()\<close>, which also holds of
  the superscript digits: the string of ten characters U+00B2 has length 10, none of
  its characters is a decimal digit, and the constructor accepts it and stores it.
\<close>

theorem Phone_init_accepts_superscript_digits:
  "Phone_init [CHR 0xB2, CHR 0xB2, CHR 0xB2, CHR 0xB2, CHR 0xB2,
               CHR 0xB2, CHR 0xB2, CHR 0xB2, CHR 0xB2, CHR 0xB2]
     = Inr (Phone_obj [CHR 0xB2, CHR 0xB2, CHR 0xB2, CHR 0xB2, CHR 0xB2,
                       CHR 0xB2, CHR 0xB2, CHR 0xB2, CHR 0xB2, CHR 0xB2])
   \<and> length [CHR 0xB2, CHR 0xB2, CHR 0xB2, CHR 0xB2, CHR 0xB2,
             CHR 0xB2, CHR 0xB2, CHR 0xB2, CHR 0xB2, CHR 0xB2] = 10
   \<and> \<not> list_all decimal_digit [CHR 0xB2, CHR 0xB2, CHR 0xB2, CHR 0xB2, CHR 0xB2,
                                CHR 0xB2, CHR 0xB2, CHR 0xB2, CHR 0xB2, CHR 0xB2]"
  by (simp add: Phone_init_def isdigit_def char_isdigit_def decimal_digit_def)

theorem Phone_init_accepts_superscript_digits_witness:
  "\<exists>p. Phone_init p = Inr (Phone_obj p) \<and> length p = 10 \<and> \<not> list_all decimal_digit p"
  using Phone_init_accepts_superscript_digits by blast

text \<open>
  Claim C9: for every non-empty string \<open>s\<close>, \<open>Name(s)\<close> succeeds and its value is \<open>s\<close>;
  for the empty string the construction of the name fails with the validation error,
  and so does the construction of a record.
\<close>

theorem Name_init_spec:
  "(s \<noteq> [] \<longrightarrow> (\<exists>n. Name_init s = Inr n \<and> name_value n = s))
   \<and> Name_init [] = Inl ValueError
   \<and> Record_init [] = Inl ValueError"
  by (simp add: Name_init_def Record_init_def)

theorem Name_init_spec_witness:
  "\<exists>n. Name_init ''John'' = Inr n \<and> name_value n = ''John''"
  using Name_init_spec [of "''John''"] by simp

subsection \<open>The loops of the record\<close>

text \<open>
  A list with an element holding the value \<open>v\<close> splits at the first such element.
\<close>

lemma first_match:
  assumes "\<exists>q\<in>set ps. phone_value q = v"
  shows "\<exists>xs p ys. ps = xs @ p # ys \<and> phone_value p = v \<and> (\<forall>q\<in>set xs. phone_value q \<noteq> v)"
  using split_list_first_prop [OF assms] by blast

lemma remove_phone_loop_absent:
  "\<forall>q\<in>set ps. phone_value q \<noteq> phone \<Longrightarrow> remove_phone_loop ps phone all = (Inr False, all)"
  by (induction ps) simp_all

text \<open>
  The loop has visited \<open>pre\<close> and is about to visit \<open>xs @ p # ys\<close>, where \<open>p\<close> is the first
  element holding the value looked for.
\<close>

lemma remove_phone_loop_first:
  assumes "\<forall>q\<in>set xs. phone_value q \<noteq> phone" and "phone_value p = phone"
  shows "remove_phone_loop (xs @ p # ys) phone (pre @ xs @ p # ys) =
           (if p \<in> set pre then (Inr True, remove1 p pre @ xs @ p # ys)
            else (Inr True, pre @ xs @ ys))"
  using assms
proof (induction xs arbitrary: pre)
  case Nil
  then show ?case by (simp add: list_remove_def remove1_append)
next
  case (Cons x xs)
  from Cons.prems have x: "phone_value x \<noteq> phone"
    and rest: "\<forall>q\<in>set xs. phone_value q \<noteq> phone"
    by simp_all
  from x Cons.prems(2) have ne: "x \<noteq> p" by auto
  have "remove_phone_loop ((x # xs) @ p # ys) phone (pre @ (x # xs) @ p # ys)
          = remove_phone_loop (xs @ p # ys) phone ((pre @ [x]) @ xs @ p # ys)"
    using x by simp
  also have "\<dots> =
      (if p \<in> set (pre @ [x]) then (Inr True, remove1 p (pre @ [x]) @ xs @ p # ys)
       else (Inr True, (pre @ [x]) @ xs @ ys))"
    using Cons.IH [OF rest Cons.prems(2)] .
  finally show ?case using ne by (simp add: remove1_append)
qed

lemma remove_phone_absent:
  "\<forall>q\<in>set (phones r). phone_value q \<noteq> raw \<Longrightarrow> remove_phone raw r = (Inr False, r)"
  by (simp add: remove_phone_def remove_phone_loop_absent)

lemma remove_phone_first:
  assumes "phones r = xs @ p # ys" and "\<forall>q\<in>set xs. phone_value q \<noteq> raw"
    and "phone_value p = raw"
  shows "remove_phone raw r = (Inr True, r\<lparr>phones := xs @ ys\<rparr>)"
  using remove_phone_loop_first [OF assms(2,3), of ys "[]"] assms(1)
  by (simp add: remove_phone_def)

lemma edit_phone_loop_absent:
  "\<forall>q\<in>set ps. phone_value q \<noteq> old \<Longrightarrow> edit_phone_loop i ps old new all = (Inr False, all)"
  by (induction ps arbitrary: i) simp_all

text \<open>The index the loop carries is the number of elements visited.\<close>

lemma edit_phone_loop_first:
  assumes "\<forall>q\<in>set xs. phone_value q \<noteq> old" and "phone_value p = old"
  shows "edit_phone_loop (length pre) (xs @ p # ys) old new (pre @ xs @ p # ys) =
           (case Phone_init new of
              Inl e \<Rightarrow> (Inl e, pre @ xs @ p # ys)
            | Inr q \<Rightarrow> (Inr True, pre @ xs @ q # ys))"
  using assms
proof (induction xs arbitrary: pre)
  case Nil
  then show ?case by (simp add: list_setitem_def split: sum.splits)
next
  case (Cons x xs)
  from Cons.prems have x: "phone_value x \<noteq> old"
    and rest: "\<forall>q\<in>set xs. phone_value q \<noteq> old"
    by simp_all
  have "edit_phone_loop (length pre) ((x # xs) @ p # ys) old new (pre @ (x # xs) @ p # ys)
          = edit_phone_loop (length (pre @ [x])) (xs @ p # ys) old new
              ((pre @ [x]) @ xs @ p # ys)"
    using x by simp
  also have "\<dots> =
      (case Phone_init new of
         Inl e \<Rightarrow> (Inl e, (pre @ [x]) @ xs @ p # ys)
       | Inr q \<Rightarrow> (Inr True, (pre @ [x]) @ xs @ q # ys))"
    using Cons.IH [OF rest Cons.prems(2)] .
  also have "\<dots> =
      (case Phone_init new of
         Inl e \<Rightarrow> (Inl e, pre @ (x # xs) @ p # ys)
       | Inr q \<Rightarrow> (Inr True, pre @ (x # xs) @ q # ys))"
    by (simp split: sum.splits)
  finally show ?case .
qed

lemma edit_phone_absent:
  "\<forall>q\<in>set (phones r). phone_value q \<noteq> old \<Longrightarrow> edit_phone old new r = (Inr False, r)"
  by (simp add: edit_phone_def edit_phone_loop_absent)

lemma edit_phone_first:
  assumes "phones r = xs @ p # ys" and "\<forall>q\<in>set xs. phone_value q \<noteq> old"
    and "phone_value p = old"
  shows "edit_phone old new r =
           (case Phone_init new of
              Inl e \<Rightarrow> (Inl e, r)
            | Inr q \<Rightarrow> (Inr True, r\<lparr>phones := xs @ q # ys\<rparr>))"
  using edit_phone_loop_first [OF assms(2,3), of "[]" ys new] assms(1)
  by (simp add: edit_phone_def split: sum.splits)

subsection \<open>edit_phone\<close>



text \<open>
  Claim C3: when no stored phone equals \<open>old_raw\<close>, \<open>edit_phone(old_raw, new_raw)\<close>
  returns false and does not raise, whatever \<open>new_raw\<close> is (it is not validated), and
  the record is unchanged.
\<close>

theorem edit_phone_not_found:
  assumes "\<forall>q\<in>set (phones r). phone_value q \<noteq> old_raw"
  shows "edit_phone old_raw new_raw r = (Inr False, r)"
  using assms by (rule edit_phone_absent)

theorem edit_phone_not_found_witness:
  "''not-present'' \<notin> set (map phone_value (phones john)) \<and> \<not> valid_phone ''12345''
   \<and> edit_phone ''not-present'' ''12345'' john = (Inr False, john)
   \<and> edit_phone ''not-present'' ''1112223333'' john = (Inr False, john)"
proof -
  have a: "\<forall>q\<in>set (phones john). phone_value q \<noteq> ''not-present''" by (simp add: john_def)
  have b: "''not-present'' \<notin> set (map phone_value (phones john))" by (simp add: john_def)
  show ?thesis
    using b invalid_12345 edit_phone_not_found [OF a, of "''12345''"]
      edit_phone_not_found [OF a, of "''1112223333''"] by simp
qed

text \<open>
  Claim C5: when \<open>new_raw\<close> is a valid phone value and some stored phone equals
  \<open>old_raw\<close>, \<open>edit_phone\<close> returns true and replaces the first matching phone, at its
  index \<open>i\<close>, by a phone holding \<open>new_raw\<close>; the name of the record, the length of the
  sequence and every other position are unchanged.
\<close>

theorem edit_phone_replaces_first:
  assumes "\<exists>q\<in>set (phones r). phone_value q = old_raw" and "valid_phone new_raw"
  shows "\<exists>i<length (phones r).
           phone_value (phones r ! i) = old_raw
           \<and> (\<forall>j<i. phone_value (phones r ! j) \<noteq> old_raw)
           \<and> edit_phone old_raw new_raw r =
               (Inr True, r\<lparr>phones := (phones r)[i := Phone_obj new_raw]\<rparr>)
           \<and> name (snd (edit_phone old_raw new_raw r)) = name r
           \<and> length (phones (snd (edit_phone old_raw new_raw r))) = length (phones r)
           \<and> phones (snd (edit_phone old_raw new_raw r)) ! i = Phone_obj new_raw
           \<and> (\<forall>j. j \<noteq> i \<longrightarrow>
                 phones (snd (edit_phone old_raw new_raw r)) ! j = phones r ! j)"
proof -
  from first_match [OF assms(1)] obtain xs p ys where
    d: "phones r = xs @ p # ys" "phone_value p = old_raw"
      "\<forall>q\<in>set xs. phone_value q \<noteq> old_raw"
    by blast
  let ?i = "length xs"
  have upd: "(phones r)[?i := Phone_obj new_raw] = xs @ Phone_obj new_raw # ys"
    using d(1) by simp
  have e: "edit_phone old_raw new_raw r =
             (Inr True, r\<lparr>phones := (phones r)[?i := Phone_obj new_raw]\<rparr>)"
    using edit_phone_first [OF d(1) d(3) d(2), of new_raw] assms(2) upd
    by (simp add: Phone_init_valid)
  have i: "?i < length (phones r)" using d(1) by simp
  have at: "phone_value (phones r ! ?i) = old_raw" using d(1,2) by simp
  have before: "\<forall>j<?i. phone_value (phones r ! j) \<noteq> old_raw"
    using d(1,3) by (simp add: nth_append)
  have others: "\<forall>j. j \<noteq> ?i \<longrightarrow> (phones r)[?i := Phone_obj new_raw] ! j = phones r ! j"
    by simp
  have here: "(phones r)[?i := Phone_obj new_raw] ! ?i = Phone_obj new_raw"
    using i by simp
  show ?thesis
    using i at before others here by (intro exI [of _ ?i]) (simp add: e)
qed

theorem edit_phone_replaces_first_witness:
  "''1234567890'' \<in> set (map phone_value (phones john)) \<and> valid_phone ''1112223333''
   \<and> edit_phone ''1234567890'' ''1112223333'' john =
       (Inr True, \<lparr>name = Name_obj ''John'',
                   phones = [Phone_obj ''1112223333'', Phone_obj ''5555555555'']\<rparr>)"
proof -
  have a: "\<exists>q\<in>set (phones john). phone_value q = ''1234567890''" by (simp add: john_def)
  from edit_phone_replaces_first [OF a valid_1112223333] obtain i where
    i: "i < length (phones john)" "phone_value (phones john ! i) = ''1234567890''"
      "edit_phone ''1234567890'' ''1112223333'' john
         = (Inr True, john\<lparr>phones := (phones john)[i := Phone_obj ''1112223333'']\<rparr>)"
    by blast
  from i(1,2) have "i = 0" by (cases i) (auto simp add: john_def less_Suc_eq)
  with i(3) valid_1112223333 show ?thesis by (simp add: john_def)
qed

subsection \<open>remove_phone\<close>

text \<open>
  Claim C4: when some stored phone equals \<open>raw\<close>, \<open>remove_phone(raw)\<close> returns true and
  removes exactly the first such phone (the sequence \<open>xs @ p # ys\<close>, with no match in
  \<open>xs\<close>, becomes \<open>xs @ ys\<close>); when none does, it returns false, does not fail, and the
  record is unchanged; and when \<open>raw\<close> is stored exactly once, the first call returns
  true and a second call with the same \<open>raw\<close> returns false.
\<close>

theorem remove_phone_spec:
  "((\<exists>q\<in>set (phones r). phone_value q = raw) \<longrightarrow>
      (\<exists>xs p ys. phones r = xs @ p # ys \<and> phone_value p = raw
         \<and> (\<forall>q\<in>set xs. phone_value q \<noteq> raw)
         \<and> remove_phone raw r = (Inr True, r\<lparr>phones := xs @ ys\<rparr>)))
   \<and> ((\<forall>q\<in>set (phones r). phone_value q \<noteq> raw) \<longrightarrow> remove_phone raw r = (Inr False, r))
   \<and> (length (filter (\<lambda>q. phone_value q = raw) (phones r)) = 1 \<longrightarrow>
        fst (remove_phone raw r) = Inr True
        \<and> fst (remove_phone raw (snd (remove_phone raw r))) = Inr False)"
proof (intro conjI impI)
  assume ex: "\<exists>q\<in>set (phones r). phone_value q = raw"
  from first_match [OF ex] obtain xs p ys where
    d: "phones r = xs @ p # ys" "phone_value p = raw" "\<forall>q\<in>set xs. phone_value q \<noteq> raw"
    by blast
  from remove_phone_first [OF d(1) d(3) d(2)] d
  show "\<exists>xs p ys. phones r = xs @ p # ys \<and> phone_value p = raw
         \<and> (\<forall>q\<in>set xs. phone_value q \<noteq> raw)
         \<and> remove_phone raw r = (Inr True, r\<lparr>phones := xs @ ys\<rparr>)"
    by blast
next
  assume "\<forall>q\<in>set (phones r). phone_value q \<noteq> raw"
  then show "remove_phone raw r = (Inr False, r)" by (rule remove_phone_absent)
next
  assume one: "length (filter (\<lambda>q. phone_value q = raw) (phones r)) = 1"
  then have "filter (\<lambda>q. phone_value q = raw) (phones r) \<noteq> []" by auto
  then have ex: "\<exists>q\<in>set (phones r). phone_value q = raw"
    by (simp add: filter_empty_conv)
  from first_match [OF ex] obtain xs p ys where
    d: "phones r = xs @ p # ys" "phone_value p = raw" "\<forall>q\<in>set xs. phone_value q \<noteq> raw"
    by blast
  have rm: "remove_phone raw r = (Inr True, r\<lparr>phones := xs @ ys\<rparr>)"
    by (rule remove_phone_first [OF d(1) d(3) d(2)])
  from d(3) have fx: "filter (\<lambda>q. phone_value q = raw) xs = []"
    by (simp add: filter_empty_conv)
  from one d(1,2) fx have "filter (\<lambda>q. phone_value q = raw) ys = []" by simp
  with d(3) have none: "\<forall>q\<in>set (phones (r\<lparr>phones := xs @ ys\<rparr>)). phone_value q \<noteq> raw"
    by (auto simp add: filter_empty_conv)
  from rm show "fst (remove_phone raw r) = Inr True" by simp
  from rm remove_phone_absent [OF none]
  show "fst (remove_phone raw (snd (remove_phone raw r))) = Inr False" by simp
qed

theorem remove_phone_spec_witness:
  "length (filter (\<lambda>q. phone_value q = ''5555555555'') (phones john)) = 1
   \<and> fst (remove_phone ''5555555555'' john) = Inr True
   \<and> fst (remove_phone ''5555555555'' (snd (remove_phone ''5555555555'' john))) = Inr False
   \<and> ''0000000000'' \<notin> set (map phone_value (phones john))
   \<and> remove_phone ''0000000000'' john = (Inr False, john)"
proof -
  have a: "length (filter (\<lambda>q. phone_value q = ''5555555555'') (phones john)) = 1"
    by (simp add: john_def)
  have b: "\<forall>q\<in>set (phones john). phone_value q \<noteq> ''0000000000''" by (simp add: john_def)
  have c: "''0000000000'' \<notin> set (map phone_value (phones john))" by (simp add: john_def)
  show ?thesis
    using a b c remove_phone_spec [of john "''5555555555''"]
      remove_phone_spec [of john "''0000000000''"]
    by simp
qed

subsection \<open>The string form of a record\<close>

lemma join_Cons: "join sep (x # xs) = x @ concat (map (\<lambda>y. sep @ y) xs)"
  by (induction xs arbitrary: x) simp_all

text \<open>
  Claim C8: the string form of a record is \<open>Contact name: <name>, phones: \<close> followed by
  the stored phone values in sequence order, joined with \<open>; \<close> (the first value, then
  every further value behind a separator); with no phone the string ends with
  \<open>phones: \<close>.
\<close>

theorem Record_str_format:
  "Record_str r =
     ''Contact name: '' @ name_value (name r) @ '', phones: ''
       @ (case map phone_value (phones r) of
            [] \<Rightarrow> []
          | v # vs \<Rightarrow> v @ concat (map (\<lambda>w. ''; '' @ w) vs))
   \<and> (phones r = [] \<longrightarrow>
        Record_str r = ''Contact name: '' @ name_value (name r) @ '', phones: '')"
  by (cases "phones r") (simp_all add: Record_str_def join_Cons comp_def)

theorem Record_str_format_witness:
  "Record_str john = ''Contact name: John, phones: 1234567890; 5555555555''
   \<and> Record_str (john\<lparr>phones := []\<rparr>) = ''Contact name: John, phones: ''"
  using Record_str_format [of john] Record_str_format [of "john\<lparr>phones := []\<rparr>"]
  by (simp add: john_def)

subsection \<open>The address book\<close>

text \<open>
  Claim C6: \<open>add_record(record)\<close> followed by \<open>find(record.name.value)\<close> returns a
  record (the added one) whose string form is the string form of the added record;
  \<open>delete(name)\<close> does not fail, \<open>find(name)\<close> after it returns \<open>None\<close>, and it leaves
  the book as it was when the name was absent.
\<close>

theorem add_record_find_delete:
  "find_record (name_value (name r)) (add_record r book) = Some r
   \<and> map_option Record_str (find_record (name_value (name r)) (add_record r book))
       = Some (Record_str r)
   \<and> fst (delete n book) = Inr ()
   \<and> find_record n (snd (delete n book)) = None
   \<and> (find_record n book = None \<longrightarrow> snd (delete n book) = book)"
  by (simp add: find_record_def add_record_def delete_def dict_delitem_def)

theorem add_record_find_delete_witness:
  "find_record ''Jane'' (add_record john AddressBook_init) = None
   \<and> delete ''Jane'' (add_record john AddressBook_init)
       = (Inr (), add_record john AddressBook_init)
   \<and> find_record ''Jane'' (add_record jane (add_record john AddressBook_init)) = Some jane
   \<and> find_record ''Jane''
       (snd (delete ''Jane'' (add_record jane (add_record john AddressBook_init)))) = None"
proof -
  have a: "find_record ''Jane'' (add_record john AddressBook_init) = None"
    by (simp add: find_record_def add_record_def AddressBook_init_def john_def)
  have n: "name_value (name jane) = ''Jane''" by (simp add: jane_def)
  show ?thesis
    using a
      add_record_find_delete [of john "add_record john AddressBook_init" "''Jane''"]
      add_record_find_delete [of jane "add_record john AddressBook_init" "''Jane''"]
      add_record_find_delete
        [of jane "add_record jane (add_record john AddressBook_init)" "''Jane''"]
    by (simp add: n prod_eq_iff)
qed

text \<open>
  Claim C7: when the book holds a record under a name, \<open>add_record\<close> with a different
  record of the same name overwrites the entry, with no merge and no error: \<open>find\<close> of
  the name returns the new record, the entry of every other name is unchanged, and the
  book has the same keys.
\<close>

theorem add_record_overwrites:
  assumes "find_record n book = Some r0" and "name_value (name r) = n" and "r \<noteq> r0"
  shows "find_record n (add_record r book) = Some r
         \<and> (\<forall>m. m \<noteq> n \<longrightarrow> find_record m (add_record r book) = find_record m book)
         \<and> dom (data (add_record r book)) = dom (data book)"
  using assms by (auto simp add: find_record_def add_record_def)

theorem add_record_overwrites_witness:
  "find_record ''John'' (add_record john (add_record jane AddressBook_init)) = Some john
   \<and> name_value (name (john\<lparr>phones := []\<rparr>)) = ''John''
   \<and> john\<lparr>phones := []\<rparr> \<noteq> john
   \<and> find_record ''John''
       (add_record (john\<lparr>phones := []\<rparr>) (add_record john (add_record jane AddressBook_init)))
       = Some (john\<lparr>phones := []\<rparr>)
   \<and> find_record ''Jane''
       (add_record (john\<lparr>phones := []\<rparr>) (add_record john (add_record jane AddressBook_init)))
       = Some jane"
proof -
  let ?book = "add_record john (add_record jane AddressBook_init)"
  let ?r = "john\<lparr>phones := []\<rparr>"
  have a: "find_record ''John'' ?book = Some john"
    by (simp add: find_record_def add_record_def john_def)
  have b: "name_value (name ?r) = ''John''" by (simp add: john_def)
  have c: "?r \<noteq> john" by (simp add: john_def)
  have d: "find_record ''Jane'' ?book = Some jane"
    by (simp add: find_record_def add_record_def john_def jane_def)
  show ?thesis
    using a b c d add_record_overwrites [OF a b c] by simp
qed

subsection \<open>The invariant of a record\<close>

lemma record_inv_init: "Record_init n = Inr r \<Longrightarrow> record_inv r"
  by (auto simp add: Record_init_def Name_init_def record_inv_def split: if_splits)

lemma record_inv_add_phone: "record_inv r \<Longrightarrow> record_inv (snd (add_phone phone r))"
  by (simp add: add_phone_def Phone_init_valid record_inv_def)

lemma record_inv_remove_phone:
  assumes "record_inv r"
  shows "record_inv (snd (remove_phone phone r))"
proof (cases "\<exists>q\<in>set (phones r). phone_value q = phone")
  case True
  from first_match [OF True] obtain xs p ys where
    d: "phones r = xs @ p # ys" "phone_value p = phone" "\<forall>q\<in>set xs. phone_value q \<noteq> phone"
    by blast
  from remove_phone_first [OF d(1) d(3) d(2)] assms d(1)
  show ?thesis by (simp add: record_inv_def)
next
  case False
  then have "\<forall>q\<in>set (phones r). phone_value q \<noteq> phone" by simp
  from remove_phone_absent [OF this] assms show ?thesis by simp
qed

lemma record_inv_edit_phone:
  assumes "record_inv r"
  shows "record_inv (snd (edit_phone old_phone new_phone r))"
proof (cases "\<exists>q\<in>set (phones r). phone_value q = old_phone")
  case True
  from first_match [OF True] obtain xs p ys where
    d: "phones r = xs @ p # ys" "phone_value p = old_phone"
      "\<forall>q\<in>set xs. phone_value q \<noteq> old_phone"
    by blast
  from edit_phone_first [OF d(1) d(3) d(2), of new_phone] assms d(1)
  show ?thesis by (simp add: record_inv_def Phone_init_valid)
next
  case False
  then have "\<forall>q\<in>set (phones r). phone_value q \<noteq> old_phone" by simp
  from edit_phone_absent [OF this] assms show ?thesis by simp
qed

lemma reachable_inv: "reachable r \<Longrightarrow> record_inv r"
  by (induction rule: reachable.induct)
    (simp_all add: record_inv_init record_inv_add_phone record_inv_remove_phone
      record_inv_edit_phone)

lemma reachable_john: "reachable john"
proof -
  have 0: "Record_init ''John'' = Inr \<lparr>name = Name_obj ''John'', phones = []\<rparr>"
    by (simp add: Record_init_def Name_init_def)
  have 1: "snd (add_phone ''1234567890'' \<lparr>name = Name_obj ''John'', phones = []\<rparr>)
             = \<lparr>name = Name_obj ''John'', phones = [Phone_obj ''1234567890'']\<rparr>"
    by (simp add: add_phone_def Phone_init_valid valid_1234567890)
  have 2: "snd (add_phone ''5555555555''
                  \<lparr>name = Name_obj ''John'', phones = [Phone_obj ''1234567890'']\<rparr>)
             = john"
    by (simp add: add_phone_def Phone_init_valid valid_5555555555 john_def)
  from reachable.add [OF reachable.add [OF reachable.init [OF 0], of "''1234567890''"],
      of "''5555555555''"]
  show ?thesis by (simp only: 1 2)
qed

text \<open>
  Claim C10: in every reachable record (constructed with a valid name, then changed by
  \<open>add_phone\<close>, \<open>remove_phone\<close> and \<open>edit_phone\<close> only) the name is non-empty and every
  stored phone passes the check of the constructor of \<open>Phone\<close>; each of the three
  operations leads to a record with the same property, also when it fails with the
  validation error.
\<close>

theorem reachable_record_inv:
  assumes "reachable r"
  shows "record_inv r
         \<and> record_inv (snd (add_phone phone r))
         \<and> record_inv (snd (remove_phone phone r))
         \<and> record_inv (snd (edit_phone old_phone new_phone r))"
  using reachable_inv [OF assms]
  by (simp add: record_inv_add_phone record_inv_remove_phone record_inv_edit_phone)

theorem reachable_record_inv_witness:
  "reachable john \<and> record_inv john
   \<and> add_phone ''12345'' john = (Inl ValueError, john)
   \<and> record_inv (snd (add_phone ''12345'' john))
   \<and> edit_phone ''1234567890'' ''12345678ab'' john = (Inl ValueError, john)
   \<and> record_inv (snd (edit_phone ''1234567890'' ''12345678ab'' john))
   \<and> record_inv (snd (remove_phone ''1234567890'' john))"
proof -
  have a: "add_phone ''12345'' john = (Inl ValueError, john)"
    by (simp add: add_phone_def Phone_init_valid invalid_12345)
  have b: "edit_phone ''1234567890'' ''12345678ab'' john = (Inl ValueError, john)"
    by (simp add: edit_phone_def john_def Phone_init_def isdigit_def char_isdigit_def)
  show ?thesis
    using reachable_john a b
      reachable_record_inv [OF reachable_john, of "''1234567890''"]
    by simp
qed

end
